theory Spec2Isabelle
  imports Complex_Main
begin

section \<open>Python strings\<close>

text \<open>
  Note text is ASCII. A Python \<open>str\<close> is modelled as a \<open>string\<close> whose characters are
  ASCII code points; \<open>upper\<close>, \<open>lower\<close>, \<open>strip\<close> and \<open>split\<close> are modelled on that
  range (characters beyond it are left alone by the case maps and are not white space).
\<close>

definition py_upper_char :: "char \<Rightarrow> char" where
  "py_upper_char c =
     (case map_of (zip ''abcdefghijklmnopqrstuvwxyz'' ''ABCDEFGHIJKLMNOPQRSTUVWXYZ'') c of
        Some u \<Rightarrow> u | None \<Rightarrow> c)"

definition py_lower_char :: "char \<Rightarrow> char" where
  "py_lower_char c =
     (case map_of (zip ''ABCDEFGHIJKLMNOPQRSTUVWXYZ'' ''abcdefghijklmnopqrstuvwxyz'') c of
        Some l \<Rightarrow> l | None \<Rightarrow> c)"

definition py_upper :: "string \<Rightarrow> string" where
  "py_upper s = map py_upper_char s"

definition py_lower :: "string \<Rightarrow> string" where
  "py_lower s = map py_lower_char s"

text \<open>\<open>str.isspace\<close> on ASCII: tab, line feed, vertical tab, form feed, carriage return,
  the four separators 0x1C..0x1F and the space.\<close>

definition py_isspace :: "char \<Rightarrow> bool" where
  "py_isspace c \<longleftrightarrow> (let n = (of_char c :: nat) in (9 \<le> n \<and> n \<le> 13) \<or> (28 \<le> n \<and> n \<le> 32))"

text \<open>\<open>s.strip()\<close>: white space removed at both ends.\<close>

definition py_strip :: "string \<Rightarrow> string" where
  "py_strip s = rev (dropWhile py_isspace (rev (dropWhile py_isspace s)))"

text \<open>\<open>s.split()\<close>: the maximal runs of characters that are not white space. The first
  argument is the word being read.\<close>

fun split_ws_acc :: "string \<Rightarrow> string \<Rightarrow> string list" where
  "split_ws_acc w [] = (if w = [] then [] else [w])"
| "split_ws_acc w (c # cs) =
     (if py_isspace c then (if w = [] then split_ws_acc [] cs else w # split_ws_acc [] cs)
      else split_ws_acc (w @ [c]) cs)"

definition py_split_ws :: "string \<Rightarrow> string list" where
  "py_split_ws s = split_ws_acc [] s"

text \<open>\<open>s.split(sep)\<close> for a one-character separator: never empty, \<open>''.split('+') == ['']\<close>.\<close>

fun py_split :: "char \<Rightarrow> string \<Rightarrow> string list" where
  "py_split sep [] = [[]]"
| "py_split sep (c # cs) =
     (if c = sep then [] # py_split sep cs
      else (case py_split sep cs of
              w # ws \<Rightarrow> (c # w) # ws
            | [] \<Rightarrow> [[c]]))"

section \<open>Errors\<close>

datatype py_error = IndexError | KeyError | ValueError string

section \<open>Note helpers of grokmidi.py\<close>

definition NOTE_MAP :: "string \<rightharpoonup> int" where
  "NOTE_MAP = map_of [(''C'', 0), (''D'', 2), (''E'', 4), (''F'', 5), (''G'', 7), (''A'', 9), (''B'', 11)]"

definition ACC_MAP :: "string \<rightharpoonup> int" where
  "ACC_MAP = map_of [(''#'', 1), (''B'', -1), (''b'', -1)]"

definition DRUM_MAP :: "string \<rightharpoonup> int" where
  "DRUM_MAP = map_of [(''K'', 35), (''S'', 38), (''H'', 42)]"

text \<open>
  \<^verbatim>\<open>
  def midi_from_str(note_str, c_scale):
      if note_str.upper() == 'R': return None
      if note_str[0].upper() in DRUM_MAP: return DRUM_MAP[note_str[0].upper()]
      letter = note_str[0].upper()
      mod = note_str[1:].lower()
      base = NOTE_MAP[letter]
      if mod and mod[0] in ACC_MAP: base += ACC_MAP[mod[0]]
      base = base % 12
      return c_scale + base
  \<close>
  \<open>note_str[0]\<close> raises IndexError on the empty string, \<open>NOTE_MAP[letter]\<close> raises KeyError
  on a letter outside the table. Python's \<open>%\<close> with a positive modulus is the floor
  remainder, as \<open>mod\<close> on \<open>int\<close>.
\<close>

definition midi_from_str :: "string \<Rightarrow> int \<Rightarrow> py_error + int option" where
  "midi_from_str note_str c_scale =
     (if py_upper note_str = ''R'' then Inr None
      else case note_str of
        [] \<Rightarrow> Inl IndexError
      | ch # rest \<Rightarrow>
         (case DRUM_MAP [py_upper_char ch] of
            Some d \<Rightarrow> Inr (Some d)
          | None \<Rightarrow>
             (let letter = [py_upper_char ch];
                  md = py_lower rest
              in case NOTE_MAP letter of
                   None \<Rightarrow> Inl KeyError
                 | Some base \<Rightarrow>
                    (let base' = (case md of
                                    [] \<Rightarrow> base
                                  | m # _ \<Rightarrow> (case ACC_MAP [m] of
                                                Some a \<Rightarrow> base + a
                                              | None \<Rightarrow> base))
                     in Inr (Some (c_scale + base' mod 12))))))"

text \<open>
  \<^verbatim>\<open>
  def get_duration(val):
      d = {'1s':4,'2':2,'4s':1,'8s':.5,'16s':.25,'32s':.125}
      return d.get(val,1)
  \<close>
  The same function, with the same table, is in midigimp.py. The values are the integers
  4, 2, 1 and the binary fractions 0.5, 0.25, 0.125, which Python's floats hold exactly;
  beats are modelled as rationals.
\<close>

definition duration_table :: "string \<rightharpoonup> rat" where
  "duration_table = map_of [(''1s'', 4), (''2'', 2), (''4s'', 1), (''8s'', 1/2), (''16s'', 1/4), (''32s'', 1/8)]"

definition get_duration :: "string \<Rightarrow> rat" where
  "get_duration val = (case duration_table val of Some d \<Rightarrow> d | None \<Rightarrow> 1)"

text \<open>
  \<^verbatim>\<open>
  def staff_pos(letter, c_scale):
      if letter in DRUM_MAP: return 6  # middle line for drums
      octave = c_scale // 12
      return NOTE_MAP[letter.upper()] + (octave - 4) * 7
  \<close>
  The table read here is \<open>NOTE_MAP\<close>, the semitone table of the pitch resolver. Python's
  \<open>//\<close> is the floor quotient, as \<open>div\<close> on \<open>int\<close>.
\<close>

definition staff_pos :: "string \<Rightarrow> int \<Rightarrow> py_error + int" where
  "staff_pos letter c_scale =
     (if DRUM_MAP letter \<noteq> None then Inr 6
      else (let octave = c_scale div 12
            in case NOTE_MAP (py_upper letter) of
                 None \<Rightarrow> Inl KeyError
               | Some v \<Rightarrow> Inr (v + (octave - 4) * 7)))"

section \<open>Note helpers of midigimp.py\<close>

definition note_map :: "string \<rightharpoonup> int" where
  "note_map = map_of [(''C'', 0), (''D'', 2), (''E'', 4), (''F'', 5), (''G'', 7), (''A'', 9), (''B'', 11)]"

text \<open>
  \<^verbatim>\<open>
  def get_midi_note(note_str, octave):
      note_str_upper = note_str.upper()
      if note_str_upper == 'R':
          return None  # Rest note
      letter = note_str[0].upper()
      modifier = note_str[1:].lower()
      if letter not in 'ABCDEFG':
          raise ValueError(f"Invalid note letter: {letter}")
      if modifier and modifier not in ('#', 'b', '%'):
          raise ValueError(f"Invalid modifier: {modifier}")
      note_map = {'C': 0, 'D': 2, 'E': 4, 'F': 5, 'G': 7, 'A': 9, 'B': 11}
      base = note_map[letter]
      if modifier == '#':
          base += 1
      elif modifier in ('b', '%'):
          base -= 1
      base = base % 12
      return (octave + 1) * 12 + base
  \<close>
  The second argument is the octave number; the scale anchor is \<open>(octave + 1) * 12\<close>.
\<close>

definition get_midi_note :: "string \<Rightarrow> int \<Rightarrow> py_error + int option" where
  "get_midi_note note_str octave =
     (if py_upper note_str = ''R'' then Inr None
      else case note_str of
        [] \<Rightarrow> Inl IndexError
      | ch # rest \<Rightarrow>
         (let letter = py_upper_char ch;
              modifier = py_lower rest
          in if letter \<notin> set ''ABCDEFG'' then Inl (ValueError (''Invalid note letter: '' @ [letter]))
             else if modifier \<noteq> [] \<and> modifier \<notin> set [''#'', ''b'', ''%'']
               then Inl (ValueError (''Invalid modifier: '' @ modifier))
             else case note_map [letter] of
                    None \<Rightarrow> Inl KeyError
                  | Some base \<Rightarrow>
                     (let base' = (if modifier = ''#'' then base + 1
                                   else if modifier \<in> set [''b'', ''%''] then base - 1
                                   else base)
                      in Inr (Some ((octave + 1) * 12 + base' mod 12)))))"

text \<open>
  \<^verbatim>\<open>
  def get_staff_position(letter, octave):
      pos_map = {'C': 0, 'D': 1, 'E': 2, 'F': 3, 'G': 4, 'A': 5, 'B': 6}
      return pos_map[letter] + (octave - 4) * 7
  \<close>
\<close>

definition pos_map :: "string \<rightharpoonup> int" where
  "pos_map = map_of [(''C'', 0), (''D'', 1), (''E'', 2), (''F'', 3), (''G'', 4), (''A'', 5), (''B'', 6)]"

definition get_staff_position :: "string \<Rightarrow> int \<Rightarrow> py_error + int" where
  "get_staff_position letter octave =
     (case pos_map letter of
        None \<Rightarrow> Inl KeyError
      | Some v \<Rightarrow> Inr (v + (octave - 4) * 7))"

section \<open>The phrase and its history (class RiffCard of grokmidi.py)\<close>

text \<open>
  A phrase is the dict \<open>{'notes': [], 'duration': '4s', 'c_scale': 60, 'strum': False}\<close>.
  The only other key that any method stores in such a dict is \<open>'text'\<close>: \<open>save_state\<close>
  sets it in the copy it pushes, and \<open>riff.update(prev)\<close> carries it into the phrase.
  The field \<open>riff_text\<close> is \<open>None\<close> while the dict has no key \<open>'text'\<close>.
\<close>

record riff =
  riff_notes :: "string list"
  riff_duration :: string
  riff_c_scale :: int
  riff_strum :: bool
  riff_text :: "string option"

definition new_riff :: riff where
  "new_riff = \<lparr>riff_notes = [], riff_duration = ''4s'', riff_c_scale = 60, riff_strum = False,
               riff_text = None\<rparr>"

text \<open>\<open>d.update(e)\<close>: every key of \<open>e\<close> is written into \<open>d\<close>; the four schema keys are
  always there, \<open>'text'\<close> when \<open>e\<close> has it.\<close>

definition dict_update :: "riff \<Rightarrow> riff \<Rightarrow> riff" where
  "dict_update d e =
     e\<lparr>riff_text := (case riff_text e of None \<Rightarrow> riff_text d | Some t \<Rightarrow> Some t)\<rparr>"

text \<open>The card: the phrase, the two stacks (Python lists, top at the end), the entry
  widget's text, the strum check box, and the slot \<open>song_data[track][idx]\<close> it writes.\<close>

record card =
  riff :: riff
  history :: "riff list"
  redo_stack :: "riff list"
  entry :: string
  strum_var :: bool
  track :: nat
  idx :: nat

text \<open>
  \<^verbatim>\<open>
  def save_state(self):
      state = self.riff.copy()
      state['text'] = self.entry.get()
      state['strum'] = self.strum_var.get()
      self.history.append(state)
      self.redo_stack.clear()
  \<close>
\<close>

definition save_state :: "card \<Rightarrow> card" where
  "save_state c =
     (let state = (riff c)\<lparr>riff_text := Some (entry c), riff_strum := strum_var c\<rparr>
      in c\<lparr>history := history c @ [state], redo_stack := []\<rparr>)"

text \<open>
  \<^verbatim>\<open>
  def undo(self):
      if len(self.history) > 1:
          self.redo_stack.append(self.history.pop())
          prev = self.history[-1]
          self.riff.update(prev)
          self.entry.delete(0,tk.END)
          self.entry.insert(0, prev['text'])
          self.strum_var.set(prev['strum'])
          self.draw_staff()
          self.app.update_full_sheet()
  \<close>
  \<open>prev['text']\<close> raises KeyError on a dict without that key. The two calls at the end
  render the card and the sheet; they read the state and write none of it, and are left
  out here and in \<open>redo\<close> and \<open>save_riff\<close> (what \<open>draw_staff\<close> raises is modelled apart,
  below).
\<close>

definition undo :: "card \<Rightarrow> py_error + card" where
  "undo c =
     (if length (history c) > 1 then
        (let top = last (history c);
             h = butlast (history c);
             prev = last h
         in case riff_text prev of
              None \<Rightarrow> Inl KeyError
            | Some t \<Rightarrow>
                Inr (c\<lparr>redo_stack := redo_stack c @ [top], history := h,
                       riff := dict_update (riff c) prev, entry := t,
                       strum_var := riff_strum prev\<rparr>))
      else Inr c)"

text \<open>
  \<^verbatim>\<open>
  def redo(self):
      if self.redo_stack:
          state = self.redo_stack.pop()
          self.history.append(state)
          self.riff.update(state)
          self.entry.delete(0,tk.END)
          self.entry.insert(0, state['text'])
          self.strum_var.set(state['strum'])
          self.draw_staff()
          self.app.update_full_sheet()
  \<close>
\<close>

definition redo :: "card \<Rightarrow> py_error + card" where
  "redo c =
     (if redo_stack c \<noteq> [] then
        (let state = last (redo_stack c)
         in case riff_text state of
              None \<Rightarrow> Inl KeyError
            | Some t \<Rightarrow>
                Inr (c\<lparr>redo_stack := butlast (redo_stack c), history := history c @ [state],
                       riff := dict_update (riff c) state, entry := t,
                       strum_var := riff_strum state\<rparr>))
      else Inr c)"

text \<open>
  \<^verbatim>\<open>
  def save_riff(self):
      self.save_state()
      txt = self.entry.get().strip()
      if not txt: return
      notes = txt.split()
      self.riff['notes'] = notes
      self.riff['duration'] = '4s'
      self.riff['strum'] = self.strum_var.get()
      self.app.song_data[self.track][self.idx] = self.riff.copy()
      self.draw_staff()
      self.app.update_full_sheet()
  \<close>
  The result is the card, the application's \<open>song_data\<close>, and the IndexError of the write
  to a slot that \<open>song_data\<close> does not have (the phrase is written before it).
\<close>

definition save_riff :: "card \<Rightarrow> riff list list \<Rightarrow> card \<times> riff list list \<times> py_error option" where
  "save_riff c song_data =
     (let c1 = save_state c;
          txt = py_strip (entry c1)
      in if txt = [] then (c1, song_data, None)
         else
           (let notes = py_split_ws txt;
                r = (riff c1)\<lparr>riff_notes := notes, riff_duration := ''4s'',
                              riff_strum := strum_var c1\<rparr>;
                c2 = c1\<lparr>riff := r\<rparr>
            in if track c2 < length song_data \<and> idx c2 < length (song_data ! track c2)
               then (c2, song_data[track c2 := (song_data ! track c2)[idx c2 := r]], None)
               else (c2, song_data, Some IndexError)))"

text \<open>
  What \<open>draw_staff\<close> raises on a phrase (its drawing is the host's):
  \<^verbatim>\<open>
  is_drum = self.app.tracks[self.track].inst_combo.get().startswith('Acoustic Bass Drum')
  for ng in self.riff['notes']:
      if ng.upper()=='R':
          ...; continue
      subs = ng.split('+')
      if is_drum:
          for s in subs:
              sym = 'X' if s[0].upper()=='S' else 'o'
              ...
          x += dur*0.6; continue
      ys,accs = [],[]
      for s in subs:
          let = s[0].upper()
          y = staff_pos(let, self.riff['c_scale'])
          ys.append(y); accs.append(accidental_sym(s))
  \<close>
\<close>

fun draw_subs :: "bool \<Rightarrow> int \<Rightarrow> string list \<Rightarrow> py_error option" where
  "draw_subs is_drum c_scale [] = None"
| "draw_subs is_drum c_scale (s # ss) =
     (case s of
        [] \<Rightarrow> Some IndexError
      | ch # _ \<Rightarrow>
         (if is_drum then draw_subs is_drum c_scale ss
          else (case staff_pos [py_upper_char ch] c_scale of
                  Inl e \<Rightarrow> Some e
                | Inr _ \<Rightarrow> draw_subs is_drum c_scale ss)))"

fun draw_notes :: "bool \<Rightarrow> int \<Rightarrow> string list \<Rightarrow> py_error option" where
  "draw_notes is_drum c_scale [] = None"
| "draw_notes is_drum c_scale (ng # ngs) =
     (if py_upper ng = ''R'' then draw_notes is_drum c_scale ngs
      else (case draw_subs is_drum c_scale (py_split CHR ''+'' ng) of
              Some e \<Rightarrow> Some e
            | None \<Rightarrow> draw_notes is_drum c_scale ngs))"

definition draw_staff :: "bool \<Rightarrow> riff \<Rightarrow> py_error option" where
  "draw_staff is_drum r = draw_notes is_drum (riff_c_scale r) (riff_notes r)"

text \<open>
  \<^verbatim>\<open>
  def save_song(self):
      ...
      payload = {'bpm': int(self.global_bpm.get() or 120), 'tracks': self.song_data}
      with open(path,'w') as f: json.dump(payload, f, indent=2)
  \<close>
  \<open>json.dump\<close> writes every key of every phrase dict of \<open>song_data\<close>, in the order the
  keys were stored.
\<close>

datatype json = JList "string list" | JStr string | JInt int | JBool bool

definition riff_items :: "riff \<Rightarrow> (string \<times> json) list" where
  "riff_items r =
     [(''notes'', JList (riff_notes r)), (''duration'', JStr (riff_duration r)),
      (''c_scale'', JInt (riff_c_scale r)), (''strum'', JBool (riff_strum r))]
     @ (case riff_text r of None \<Rightarrow> [] | Some t \<Rightarrow> [(''text'', JStr t)])"

definition save_song :: "int \<Rightarrow> riff list list \<Rightarrow> int \<times> (string \<times> json) list list list" where
  "save_song bpm song_data = (bpm, map (map riff_items) song_data)"

section \<open>Timeline assembly (export_midi and _play_midi of grokmidi.py)\<close>

text \<open>
  The loop over one track, the same text in \<open>export_midi\<close> and in \<open>_play_midi\<close>:
  \<^verbatim>\<open>
  time_pos = 0
  for card in track.card_frame.winfo_children():
      if not isinstance(card, RiffCard): continue
      riff = card.riff
      if not riff['notes']: continue
      dur = get_duration(riff['duration'])
      strum = riff.get('strum', False)
      delay = 0.03 if strum else 0
      for ng in riff['notes']:
          if ng.upper()=='R':
              time_pos += dur; continue
          subs = ng.split('+')
          pitches = [midi_from_str(s, c_scale) for s in subs]
          for j, p in enumerate(pitches):
              if p is None: continue
              offset = delay * j
              midi.addNote(t_idx, 9 if prog==35 else 0, p, time_pos + offset, dur, 100)
          time_pos += dur
  \<close>
  \<open>c_scale\<close> and \<open>prog\<close> are read from the track's combo boxes, once per track.
  \<open>midi.addNote\<close> appends one event to the file being built; the model keeps the list
  of these events. Beats are rationals: durations are binary fractions, the strum delay
  is the decimal constant 0.03, and sums and products are exact.
\<close>

record event =
  ev_track :: nat
  ev_channel :: nat
  ev_pitch :: int
  ev_time :: rat
  ev_duration :: rat
  ev_volume :: nat

text \<open>The list comprehension: the first subnote that raises ends it.\<close>

fun resolve_subs :: "string list \<Rightarrow> int \<Rightarrow> py_error + int option list" where
  "resolve_subs [] c_scale = Inr []"
| "resolve_subs (s # ss) c_scale =
     (case midi_from_str s c_scale of
        Inl e \<Rightarrow> Inl e
      | Inr p \<Rightarrow> (case resolve_subs ss c_scale of
                    Inl e \<Rightarrow> Inl e
                  | Inr ps \<Rightarrow> Inr (p # ps)))"

text \<open>The loop over \<open>enumerate(pitches)\<close>, from index \<open>j\<close> on.\<close>

fun add_notes :: "nat \<Rightarrow> int \<Rightarrow> rat \<Rightarrow> rat \<Rightarrow> rat \<Rightarrow> nat \<Rightarrow> int option list \<Rightarrow> event list
                  \<Rightarrow> event list" where
  "add_notes t_idx prog time_pos delay dur j [] evs = evs"
| "add_notes t_idx prog time_pos delay dur j (p # ps) evs =
     (case p of
        None \<Rightarrow> add_notes t_idx prog time_pos delay dur (Suc j) ps evs
      | Some v \<Rightarrow>
         (let offset = delay * of_nat j
          in add_notes t_idx prog time_pos delay dur (Suc j) ps
               (evs @ [\<lparr>ev_track = t_idx, ev_channel = (if prog = 35 then 9 else 0),
                        ev_pitch = v, ev_time = time_pos + offset, ev_duration = dur,
                        ev_volume = 100\<rparr>])))"

text \<open>One token: the body of the loop over \<open>riff['notes']\<close>, on the events so far and
  the cursor.\<close>

definition export_token ::
  "nat \<Rightarrow> int \<Rightarrow> int \<Rightarrow> rat \<Rightarrow> rat \<Rightarrow> string \<Rightarrow> event list \<times> rat \<Rightarrow> py_error + event list \<times> rat" where
  "export_token t_idx prog c_scale dur delay ng st =
     (case st of (evs, time_pos) \<Rightarrow>
        if py_upper ng = ''R'' then Inr (evs, time_pos + dur)
        else (let subs = py_split CHR ''+'' ng
              in case resolve_subs subs c_scale of
                   Inl e \<Rightarrow> Inl e
                 | Inr pitches \<Rightarrow>
                     Inr (add_notes t_idx prog time_pos delay dur 0 pitches evs,
                          time_pos + dur)))"

fun export_notes ::
  "nat \<Rightarrow> int \<Rightarrow> int \<Rightarrow> rat \<Rightarrow> rat \<Rightarrow> string list \<Rightarrow> event list \<times> rat \<Rightarrow> py_error + event list \<times> rat" where
  "export_notes t_idx prog c_scale dur delay [] st = Inr st"
| "export_notes t_idx prog c_scale dur delay (ng # ngs) st =
     (case export_token t_idx prog c_scale dur delay ng st of
        Inl e \<Rightarrow> Inl e
      | Inr st' \<Rightarrow> export_notes t_idx prog c_scale dur delay ngs st')"

definition export_riff ::
  "nat \<Rightarrow> int \<Rightarrow> int \<Rightarrow> riff \<Rightarrow> event list \<times> rat \<Rightarrow> py_error + event list \<times> rat" where
  "export_riff t_idx prog c_scale r st =
     (if riff_notes r = [] then Inr st
      else (let dur = get_duration (riff_duration r);
                strum = riff_strum r;
                delay = (if strum then 3 / 100 else 0)
            in export_notes t_idx prog c_scale dur delay (riff_notes r) st))"

fun export_cards ::
  "nat \<Rightarrow> int \<Rightarrow> int \<Rightarrow> riff list \<Rightarrow> event list \<times> rat \<Rightarrow> py_error + event list \<times> rat" where
  "export_cards t_idx prog c_scale [] st = Inr st"
| "export_cards t_idx prog c_scale (r # rs) st =
     (case export_riff t_idx prog c_scale r st of
        Inl e \<Rightarrow> Inl e
      | Inr st' \<Rightarrow> export_cards t_idx prog c_scale rs st')"

text \<open>One track of \<open>export_midi\<close>: the cursor starts at 0; the result is the events and
  the cursor after the track's last card.\<close>

definition export_track ::
  "nat \<Rightarrow> int \<Rightarrow> int \<Rightarrow> riff list \<Rightarrow> event list \<Rightarrow> py_error + event list \<times> rat" where
  "export_track t_idx prog c_scale riffs evs = export_cards t_idx prog c_scale riffs (evs, 0)"

text \<open>\<open>_play_midi\<close> runs the same loop (and shows whatever it raises in a dialog).\<close>

definition play_token ::
  "nat \<Rightarrow> int \<Rightarrow> int \<Rightarrow> rat \<Rightarrow> rat \<Rightarrow> string \<Rightarrow> event list \<times> rat \<Rightarrow> py_error + event list \<times> rat" where
  "play_token = export_token"

definition play_riff ::
  "nat \<Rightarrow> int \<Rightarrow> int \<Rightarrow> riff \<Rightarrow> event list \<times> rat \<Rightarrow> py_error + event list \<times> rat" where
  "play_riff = export_riff"

section \<open>Timeline assembly of midigimp.py (export_midi)\<close>

text \<open>
  \<^verbatim>\<open>
  time_pos = 0
  ...
  for riff in self.riffs:
      ...
      dur = get_duration(riff['duration'])
      for note_group in riff['notes']:
          if note_group.upper() == 'R':
              time_pos += dur
              continue
          sub_notes = note_group.split('+')
          pitches = [get_midi_note(sub, riff['octave']) for sub in sub_notes]
          for pitch in pitches:
              midi.addNote(track, channel, pitch, time_pos, dur, volume)
          time_pos += dur
  \<close>
  One track, one cursor over all the riffs. A pitch handed to \<open>addNote\<close> may be
  \<open>None\<close> (an \<open>R\<close> inside a chord). The program changes are not notes and are left out.
\<close>

record mg_riff =
  mg_notes :: "string list"
  mg_duration :: string
  mg_octave :: int
  mg_instrument :: int

record mg_event =
  mg_pitch :: "int option"
  mg_time :: rat
  mg_length :: rat

fun mg_resolve_subs :: "string list \<Rightarrow> int \<Rightarrow> py_error + int option list" where
  "mg_resolve_subs [] octave = Inr []"
| "mg_resolve_subs (s # ss) octave =
     (case get_midi_note s octave of
        Inl e \<Rightarrow> Inl e
      | Inr p \<Rightarrow> (case mg_resolve_subs ss octave of
                    Inl e \<Rightarrow> Inl e
                  | Inr ps \<Rightarrow> Inr (p # ps)))"

fun mg_export_notes ::
  "rat \<Rightarrow> int \<Rightarrow> string list \<Rightarrow> mg_event list \<times> rat \<Rightarrow> py_error + mg_event list \<times> rat" where
  "mg_export_notes dur octave [] st = Inr st"
| "mg_export_notes dur octave (note_group # ngs) st =
     (case st of (evs, time_pos) \<Rightarrow>
        if py_upper note_group = ''R'' then mg_export_notes dur octave ngs (evs, time_pos + dur)
        else (case mg_resolve_subs (py_split CHR ''+'' note_group) octave of
                Inl e \<Rightarrow> Inl e
              | Inr pitches \<Rightarrow>
                  mg_export_notes dur octave ngs
                    (evs @ map (\<lambda>pitch. \<lparr>mg_pitch = pitch, mg_time = time_pos, mg_length = dur\<rparr>) pitches,
                     time_pos + dur)))"

fun mg_export_riffs :: "mg_riff list \<Rightarrow> mg_event list \<times> rat \<Rightarrow> py_error + mg_event list \<times> rat" where
  "mg_export_riffs [] st = Inr st"
| "mg_export_riffs (r # rs) st =
     (case mg_export_notes (get_duration (mg_duration r)) (mg_octave r) (mg_notes r) st of
        Inl e \<Rightarrow> Inl e
      | Inr st' \<Rightarrow> mg_export_riffs rs st')"

definition mg_export_midi :: "mg_riff list \<Rightarrow> py_error + mg_event list \<times> rat" where
  "mg_export_midi riffs = mg_export_riffs riffs ([], 0)"

section \<open>Committing a riff in midigimp.py (_save_or_update_riff)\<close>

text \<open>
  \<^verbatim>\<open>
  notes = notes_str.split()
  for note_group in notes:
      if note_group.upper() == 'R':
          continue
      sub_notes = note_group.split('+')
      for sub in sub_notes:
          letter = sub[0].upper()
          if letter not in 'ABCDEFG':
              messagebox.showerror("Error", f"Invalid note letter: {letter} in {sub}")
              return
          if len(sub) > 1:
              mod = sub[1].lower()
              if mod not in ('#', 'b', '%'):
                  messagebox.showerror("Error", f"Invalid modifier: {mod} in {sub}")
                  return
          if len(sub) > 2:
              messagebox.showerror("Error", f"Note too long: {sub}")
              return
  \<close>
  The outcome of the method is what the caller sees: nothing (the riff was stored), the
  text of the error dialog, or an exception.
\<close>

datatype outcome = Committed | ShowError string | Raised py_error

definition check_sub :: "string \<Rightarrow> outcome" where
  "check_sub sub =
     (case sub of
        [] \<Rightarrow> Raised IndexError
      | ch # rest \<Rightarrow>
         (let letter = py_upper_char ch
          in if letter \<notin> set ''ABCDEFG''
             then ShowError (''Invalid note letter: '' @ [letter] @ '' in '' @ sub)
             else (case rest of
                     [] \<Rightarrow> Committed
                   | m # rest' \<Rightarrow>
                      (let md = py_lower_char m
                       in if md \<notin> set ''#b%''
                          then ShowError (''Invalid modifier: '' @ [md] @ '' in '' @ sub)
                          else if rest' \<noteq> [] then ShowError (''Note too long: '' @ sub)
                          else Committed))))"

fun check_subs :: "string list \<Rightarrow> outcome" where
  "check_subs [] = Committed"
| "check_subs (sub # subs) =
     (case check_sub sub of Committed \<Rightarrow> check_subs subs | out \<Rightarrow> out)"

fun check_notes :: "string list \<Rightarrow> outcome" where
  "check_notes [] = Committed"
| "check_notes (note_group # ngs) =
     (if py_upper note_group = ''R'' then check_notes ngs
      else (case check_subs (py_split CHR ''+'' note_group) of
              Committed \<Rightarrow> check_notes ngs
            | out \<Rightarrow> out))"

text \<open>
  \<^verbatim>\<open>
  def _save_or_update_riff(self, add_new):
      notes_str = self.notes_entry.get().strip()
      if not notes_str:
          messagebox.showerror("Error", "Enter some notes!")
          return
      duration = self.duration_combo.get()
      octave_str = self.octave_combo.get()
      octave = int(octave_str.split('(')[1][0])
      instrument_str = self.instrument_combo.get()
      instrument = int(instrument_str.split('(')[1][:-1])
      notes = notes_str.split()
      ... the checks above ...
      riff = {'notes': notes, 'duration': duration, 'octave': octave, 'instrument': instrument}
      ...
      if add_new or self.editing_index is None:
          self.riffs.append(riff)
          ...
      else:
          index = self.editing_index
          self.riffs[index] = riff
          ...
          self.editing_index = None
      self.notes_entry.delete(0, tk.END)
      ...
  \<close>
  The combo boxes are read-only with fixed options; the model holds the octave and the
  instrument they show as numbers. The list box and the buttons are the host's.
\<close>

record writer =
  riffs :: "mg_riff list"
  editing_index :: "nat option"
  notes_entry :: string
  duration_combo :: string
  octave_combo :: int
  instrument_combo :: int

definition save_or_update_riff :: "bool \<Rightarrow> writer \<Rightarrow> outcome \<times> writer" where
  "save_or_update_riff add_new w =
     (let notes_str = py_strip (notes_entry w)
      in if notes_str = [] then (ShowError ''Enter some notes!'', w)
         else
           (let notes = py_split_ws notes_str
            in case check_notes notes of
                 ShowError msg \<Rightarrow> (ShowError msg, w)
               | Raised e \<Rightarrow> (Raised e, w)
               | Committed \<Rightarrow>
                  (let r = \<lparr>mg_notes = notes, mg_duration = duration_combo w,
                            mg_octave = octave_combo w, mg_instrument = instrument_combo w\<rparr>
                   in if add_new \<or> editing_index w = None
                      then (Committed, w\<lparr>riffs := riffs w @ [r], notes_entry := []\<rparr>)
                      else (let index = the (editing_index w)
                            in if index < length (riffs w)
                               then (Committed, w\<lparr>riffs := (riffs w)[index := r],
                                                  editing_index := None, notes_entry := []\<rparr>)
                               else (Raised IndexError, w)))))"

text \<open>
  A card as \<open>RiffCard.__init__\<close> makes it, and \<open>song_data\<close> as \<open>CardWriterApp.__init__\<close>
  makes it: four tracks of three empty phrases.
\<close>

definition RiffCard :: "nat \<Rightarrow> nat \<Rightarrow> card" where
  "RiffCard track_no card_idx =
     \<lparr>riff = new_riff, history = [], redo_stack = [], entry = [], strum_var = False,
      track = track_no, idx = card_idx\<rparr>"

definition initial_song_data :: "riff list list" where
  "initial_song_data = replicate 4 (replicate 3 new_riff)"

section \<open>Well-formed history\<close>

text \<open>Every dict on the two stacks was pushed by \<open>save_state\<close>, which sets \<open>'text'\<close>;
  \<open>undo\<close> and \<open>redo\<close> only move dicts between the stacks.\<close>

definition snapshots_ok :: "card \<Rightarrow> bool" where
  "snapshots_ok c \<longleftrightarrow> (\<forall>s \<in> set (history c) \<union> set (redo_stack c). riff_text s \<noteq> None)"

section \<open>Well-formed phrases\<close>

text \<open>
  The elements \<open>midi_from_str\<close> resolves without raising: a lone \<open>R\<close> or \<open>r\<close>, or a
  non-empty string whose first letter, in upper case, is a key of \<open>DRUM_MAP\<close> or of
  \<open>NOTE_MAP\<close>. A token is valid when it is a rest or every element of the chord is.
\<close>

definition resolvable :: "string \<Rightarrow> bool" where
  "resolvable s \<longleftrightarrow>
     py_upper s = ''R'' \<or>
     (case s of
        [] \<Rightarrow> False
      | ch # _ \<Rightarrow> DRUM_MAP [py_upper_char ch] \<noteq> None \<or> NOTE_MAP [py_upper_char ch] \<noteq> None)"

definition valid_token :: "string \<Rightarrow> bool" where
  "valid_token ng \<longleftrightarrow> py_upper ng = ''R'' \<or> list_all resolvable (py_split CHR ''+'' ng)"

definition valid_riff :: "riff \<Rightarrow> bool" where
  "valid_riff r \<longleftrightarrow> list_all valid_token (riff_notes r)"

text \<open>The beats of a list of phrases: the phrase's duration once for each of its tokens.\<close>

definition total_beats :: "riff list \<Rightarrow> rat" where
  "total_beats rs = (\<Sum>r\<leftarrow>rs. \<Sum>ng\<leftarrow>riff_notes r. get_duration (riff_duration r))"

definition mg_total_beats :: "mg_riff list \<Rightarrow> rat" where
  "mg_total_beats rs = (\<Sum>r\<leftarrow>rs. \<Sum>ng\<leftarrow>mg_notes r. get_duration (mg_duration r))"

section \<open>Helper facts\<close>

lemmas str_defs = py_upper_def py_upper_char_def py_lower_def py_lower_char_def

lemmas table_defs = NOTE_MAP_def DRUM_MAP_def ACC_MAP_def note_map_def pos_map_def

lemma letter_cases:
  "L \<in> set ''CDEFGAB'' \<Longrightarrow>
     L = CHR ''C'' \<or> L = CHR ''D'' \<or> L = CHR ''E'' \<or> L = CHR ''F'' \<or> L = CHR ''G''
     \<or> L = CHR ''A'' \<or> L = CHR ''B''"
  by auto

lemma accidental_cases:
  "A \<in> set [[], ''#'', ''b'', ''B''] \<Longrightarrow> A = [] \<or> A = ''#'' \<or> A = ''b'' \<or> A = ''B''"
  by auto

lemma mod12_shift: "(x + 12) mod 12 = (x::int) mod 12"
  by simp

lemma mod12_anchor: "(x + 12 + y) mod 12 = (x + y) mod (12::int)"
proof -
  have e: "x + 12 + y = (x + y) + 12" by simp
  show ?thesis unfolding e by (rule mod12_shift)
qed

lemma mod12_octave: "((k + 1 + 1) * 12 + y) mod 12 = ((k + 1) * 12 + y) mod (12::int)"
proof -
  have e: "(k + 1 + 1) * 12 + y = ((k + 1) * 12 + y) + 12" by (simp add: algebra_simps)
  show ?thesis unfolding e by (rule mod12_shift)
qed

text \<open>A letter with an optional accidental resolves, at every anchor, to the anchor plus
  one offset in \<open>[0, 12)\<close>.\<close>

lemma midi_from_str_note:
  assumes "L \<in> set ''CDEFGAB''" and "A \<in> set [[], ''#'', ''b'', ''B'']"
  shows "\<exists>base. 0 \<le> base \<and> base < 12 \<and> (\<forall>n. midi_from_str (L # A) n = Inr (Some (n + base)))"
  using letter_cases [OF assms(1)] accidental_cases [OF assms(2)]
  by (elim disjE) (simp_all add: midi_from_str_def str_defs table_defs)

lemma get_midi_note_note:
  assumes "L \<in> set ''CDEFGAB''" and "A \<in> set [[], ''#'', ''b'', ''B'']"
  shows "\<exists>base. 0 \<le> base \<and> base < 12
           \<and> (\<forall>n. get_midi_note (L # A) n = Inr (Some ((n + 1) * 12 + base)))"
  using letter_cases [OF assms(1)] accidental_cases [OF assms(2)]
  by (elim disjE) (simp_all add: get_midi_note_def str_defs table_defs)

lemma staff_pos_letter:
  assumes "L \<in> set ''CDEFGAB''"
  shows "\<exists>k. \<forall>n. staff_pos [L] n = Inr (k + (n div 12 - 4) * 7)"
  using letter_cases [OF assms]
  by (elim disjE) (simp_all add: staff_pos_def str_defs table_defs)

section \<open>Pitch resolution\<close>

text \<open>
  C1. For every letter \<open>L\<close> of C, D, E, F, G, A, B, with no accidental, a sharp \<open>#\<close> or a
  flat (\<open>b\<close> or \<open>B\<close>), and every integer scale anchor \<open>n\<close>, the pitch resolver takes
  \<open>base\<close> from the letter's semitone table, adds 1 for the sharp or subtracts 1 for the
  flat, reduces modulo 12 into \<open>[0, 12)\<close> and returns \<open>n\<close> plus that. So C at 60 is 60,
  C sharp is 61, and C flat is 71: the flat wraps up to pitch class 11 before the anchor
  is added. \<open>midi_from_str\<close> takes the anchor; \<open>get_midi_note\<close> takes the octave and its
  anchor is \<open>(octave + 1) * 12\<close>, which is 60 at octave 4.
\<close>

theorem resolve_pitch_single_note:
  assumes "L \<in> set ''CDEFGAB''"
  shows "\<exists>base. NOTE_MAP [L] = Some base
      \<and> midi_from_str [L] n = Inr (Some (n + base mod 12))
      \<and> midi_from_str [L, CHR ''#''] n = Inr (Some (n + (base + 1) mod 12))
      \<and> midi_from_str [L, CHR ''b''] n = Inr (Some (n + (base - 1) mod 12))
      \<and> midi_from_str [L, CHR ''B''] n = Inr (Some (n + (base - 1) mod 12))
      \<and> get_midi_note [L] octave = Inr (Some ((octave + 1) * 12 + base mod 12))
      \<and> get_midi_note [L, CHR ''#''] octave = Inr (Some ((octave + 1) * 12 + (base + 1) mod 12))
      \<and> get_midi_note [L, CHR ''b''] octave = Inr (Some ((octave + 1) * 12 + (base - 1) mod 12))
      \<and> get_midi_note [L, CHR ''B''] octave = Inr (Some ((octave + 1) * 12 + (base - 1) mod 12))
      \<and> 0 \<le> (base - 1) mod 12 \<and> (base + 1) mod 12 < 12
      \<and> midi_from_str ''C'' 60 = Inr (Some 60) \<and> midi_from_str ''C#'' 60 = Inr (Some 61)
      \<and> midi_from_str ''Cb'' 60 = Inr (Some 71)
      \<and> get_midi_note ''C'' 4 = Inr (Some 60) \<and> get_midi_note ''C#'' 4 = Inr (Some 61)
      \<and> get_midi_note ''Cb'' 4 = Inr (Some 71)"
  using letter_cases [OF assms]
  by (elim disjE)
     (simp_all add: midi_from_str_def get_midi_note_def str_defs table_defs)

theorem resolve_pitch_single_note_witness:
  "CHR ''B'' \<in> set ''CDEFGAB''
   \<and> midi_from_str ''B'' 48 = Inr (Some 59) \<and> midi_from_str ''B#'' 48 = Inr (Some 48)
   \<and> midi_from_str ''Bb'' 48 = Inr (Some 58) \<and> get_midi_note ''B#'' 3 = Inr (Some 48)"
  using resolve_pitch_single_note [of "CHR ''B''" 48 3] by (simp add: NOTE_MAP_def)

text \<open>
  C9. For every valid letter, every accidental (sharp, flat or none) and every integer
  anchor, the note resolved at the anchor and the note resolved one octave higher (the
  anchor plus 12; for \<open>get_midi_note\<close>, the octave plus 1) have the same pitch class
  modulo 12.
\<close>

theorem pitch_class_octave_invariant:
  assumes "L \<in> set ''CDEFGAB''" and "A \<in> set [[], ''#'', ''b'', ''B'']"
  shows "(\<exists>p q. midi_from_str (L # A) anchor = Inr (Some p)
             \<and> midi_from_str (L # A) (anchor + 12) = Inr (Some q)
             \<and> p mod 12 = q mod 12)
       \<and> (\<exists>p q. get_midi_note (L # A) octave = Inr (Some p)
             \<and> get_midi_note (L # A) (octave + 1) = Inr (Some q)
             \<and> p mod 12 = q mod 12)"
proof
  from midi_from_str_note [OF assms] obtain b where
    b: "\<And>n. midi_from_str (L # A) n = Inr (Some (n + b))" by blast
  show "\<exists>p q. midi_from_str (L # A) anchor = Inr (Some p)
             \<and> midi_from_str (L # A) (anchor + 12) = Inr (Some q)
             \<and> p mod 12 = q mod 12"
  proof (intro exI conjI)
    show "midi_from_str (L # A) anchor = Inr (Some (anchor + b))" by (rule b)
    show "midi_from_str (L # A) (anchor + 12) = Inr (Some (anchor + 12 + b))" by (rule b)
    show "(anchor + b) mod 12 = (anchor + 12 + b) mod 12" by (rule mod12_anchor [symmetric])
  qed
next
  from get_midi_note_note [OF assms] obtain b where
    b: "\<And>n. get_midi_note (L # A) n = Inr (Some ((n + 1) * 12 + b))" by blast
  show "\<exists>p q. get_midi_note (L # A) octave = Inr (Some p)
             \<and> get_midi_note (L # A) (octave + 1) = Inr (Some q)
             \<and> p mod 12 = q mod 12"
  proof (intro exI conjI)
    show "get_midi_note (L # A) octave = Inr (Some ((octave + 1) * 12 + b))" by (rule b)
    show "get_midi_note (L # A) (octave + 1) = Inr (Some ((octave + 1 + 1) * 12 + b))" by (rule b)
    show "((octave + 1) * 12 + b) mod 12 = ((octave + 1 + 1) * 12 + b) mod 12"
      by (rule mod12_octave [symmetric])
  qed
qed

theorem pitch_class_octave_invariant_witness:
  "CHR ''C'' \<in> set ''CDEFGAB'' \<and> ''b'' \<in> set [[], ''#'', ''b'', ''B'']
   \<and> (\<exists>p q. midi_from_str ''Cb'' 60 = Inr (Some p) \<and> midi_from_str ''Cb'' (60 + 12) = Inr (Some q)
            \<and> p mod 12 = q mod 12)
   \<and> (\<exists>p q. get_midi_note ''Cb'' 4 = Inr (Some p) \<and> get_midi_note ''Cb'' (4 + 1) = Inr (Some q)
            \<and> p mod 12 = q mod 12)"
  using pitch_class_octave_invariant [of "CHR ''C''" "''b''" 60 4] by simp

section \<open>Staff position\<close>

text \<open>
  C2, as stated, at the letter C and the anchor 60: the position is 7, since
  \<open>60 // 12\<close> is 5, and at 72 it is 14; not 0 and 7.
\<close>

theorem staff_position_counterexample:
  "staff_pos ''C'' 60 = Inr 7 \<and> staff_pos ''C'' 60 \<noteq> Inr 0 \<and> staff_pos ''C'' 72 \<noteq> Inr 7"
  by (simp add: staff_pos_def str_defs table_defs)

text \<open>
  C2, amended. For every note letter \<open>L\<close> and every integer scale anchor \<open>n\<close>,
  \<open>staff_pos\<close> is a term of the letter alone plus \<open>(n // 12 - 4) * 7\<close>, and the letter's
  term is 0 for C: C is at 0 for the anchor 48, at 7 for 60 and at 14 for 72 (one
  octave up is seven steps). \<open>get_staff_position\<close>, which is given the octave number
  itself, is the letter's diatonic index (C, D, E, F, G, A, B to 0..6) plus
  \<open>(octave - 4) * 7\<close>: C is at 0 in octave 4 and at 7 in octave 5.
\<close>

theorem staff_position_amended:
  "staff_pos ''C'' n = Inr ((n div 12 - 4) * 7)
   \<and> (L \<in> set ''CDEFGAB'' \<longrightarrow> (\<exists>k. \<forall>m. staff_pos [L] m = Inr (k + (m div 12 - 4) * 7)))
   \<and> staff_pos ''C'' 48 = Inr 0 \<and> staff_pos ''C'' 60 = Inr 7 \<and> staff_pos ''C'' 72 = Inr 14
   \<and> (i < 7 \<longrightarrow> get_staff_position [''CDEFGAB'' ! i] octave = Inr (int i + (octave - 4) * 7))
   \<and> get_staff_position ''C'' 4 = Inr 0 \<and> get_staff_position ''C'' 5 = Inr 7"
proof -
  have a: "staff_pos ''C'' m = Inr ((m div 12 - 4) * 7)" for m
    by (simp add: staff_pos_def str_defs table_defs)
  have b: "get_staff_position [''CDEFGAB'' ! i] octave = Inr (int i + (octave - 4) * 7)" if "i < 7"
  proof -
    from that have "i = 0 \<or> i = 1 \<or> i = 2 \<or> i = 3 \<or> i = 4 \<or> i = 5 \<or> i = 6" by arith
    then show ?thesis
      by (elim disjE) (simp_all add: get_staff_position_def pos_map_def)
  qed
  have c: "get_staff_position ''C'' 4 = Inr 0 \<and> get_staff_position ''C'' 5 = Inr 7"
    by (simp add: get_staff_position_def pos_map_def)
  show ?thesis
    using a [of n] a [of 48] a [of 60] a [of 72] b c staff_pos_letter [of L] by simp
qed

theorem staff_position_amended_witness:
  "CHR ''G'' \<in> set ''CDEFGAB'' \<and> (5::nat) < 7
   \<and> (\<exists>k. \<forall>m. staff_pos ''G'' m = Inr (k + (m div 12 - 4) * 7))
   \<and> get_staff_position ''A'' 5 = Inr 12 \<and> staff_pos ''C'' 36 = Inr (- 7)"
  using staff_position_amended [of 36 "CHR ''G''" 5 5] by simp

section \<open>Durations\<close>

text \<open>
  C8. The duration table maps \<open>1s\<close> to 4, \<open>2\<close> to 2, \<open>4s\<close> to 1, \<open>8s\<close> to 0.5, \<open>16s\<close> to
  0.25 and \<open>32s\<close> to 0.125, and every other string to 1; the lookup is total, it has no
  error to raise. So \<open>4s\<close> is 1 and \<open>unknown\<close> is 1.
\<close>

theorem beat_length_table:
  "get_duration ''1s'' = 4 \<and> get_duration ''2'' = 2 \<and> get_duration ''4s'' = 1
   \<and> get_duration ''8s'' = 1 / 2 \<and> get_duration ''16s'' = 1 / 4 \<and> get_duration ''32s'' = 1 / 8
   \<and> get_duration ''unknown'' = 1
   \<and> (val \<notin> set [''1s'', ''2'', ''4s'', ''8s'', ''16s'', ''32s''] \<longrightarrow> get_duration val = 1)"
  by (simp add: get_duration_def duration_table_def)

theorem beat_length_table_witness:
  "''whole'' \<notin> set [''1s'', ''2'', ''4s'', ''8s'', ''16s'', ''32s''] \<and> get_duration ''whole'' = 1"
  using beat_length_table [of "''whole''"] by simp

section \<open>Edit history\<close>

text \<open>A dict pushed by \<open>save_state\<close> has every key the phrase can have, so
  \<open>riff.update\<close> with it replaces the phrase.\<close>

lemma dict_update_snapshot: "riff_text e \<noteq> None \<Longrightarrow> dict_update d e = e"
  by (cases e) (auto simp: dict_update_def)

lemma undo_noop: "length (history c) \<le> 1 \<Longrightarrow> undo c = Inr c"
  by (simp add: undo_def)

lemma undo_step:
  assumes "length (history c) > 1" and "riff_text (last (butlast (history c))) = Some t"
  shows "undo c = Inr (c\<lparr>redo_stack := redo_stack c @ [last (history c)],
                         history := butlast (history c),
                         riff := last (butlast (history c)), entry := t,
                         strum_var := riff_strum (last (butlast (history c)))\<rparr>)"
  using assms by (simp add: undo_def Let_def dict_update_snapshot)

lemma redo_noop: "redo_stack c = [] \<Longrightarrow> redo c = Inr c"
  by (simp add: redo_def)

lemma redo_step:
  assumes "redo_stack c \<noteq> []" and "riff_text (last (redo_stack c)) = Some t"
  shows "redo c = Inr (c\<lparr>redo_stack := butlast (redo_stack c),
                         history := history c @ [last (redo_stack c)],
                         riff := last (redo_stack c), entry := t,
                         strum_var := riff_strum (last (redo_stack c))\<rparr>)"
  using assms by (simp add: redo_def Let_def dict_update_snapshot)

lemma save_state_ok: "snapshots_ok c \<Longrightarrow> snapshots_ok (save_state c)"
  by (auto simp: snapshots_ok_def save_state_def Let_def)

lemma undo_ok:
  assumes "snapshots_ok c"
  shows "\<exists>c'. undo c = Inr c' \<and> snapshots_ok c'"
proof (cases "length (history c) > 1")
  case False
  then show ?thesis using assms by (simp add: undo_def)
next
  case True
  then have ne: "butlast (history c) \<noteq> []"
    by (cases "history c" rule: rev_cases) auto
  then have "last (butlast (history c)) \<in> set (history c)"
    by (meson in_set_butlastD last_in_set)
  with assms obtain t where t: "riff_text (last (butlast (history c))) = Some t"
    by (auto simp: snapshots_ok_def)
  have "history c \<noteq> []" using True by auto
  then have l: "last (history c) \<in> set (history c)" by simp
  have "snapshots_ok (c\<lparr>redo_stack := redo_stack c @ [last (history c)],
                         history := butlast (history c),
                         riff := last (butlast (history c)), entry := t,
                         strum_var := riff_strum (last (butlast (history c)))\<rparr>)"
    using assms l by (auto simp: snapshots_ok_def dest: in_set_butlastD)
  then show ?thesis using undo_step [OF True t] by simp
qed

lemma redo_ok:
  assumes "snapshots_ok c"
  shows "\<exists>c'. redo c = Inr c' \<and> snapshots_ok c'"
proof (cases "redo_stack c = []")
  case True
  then show ?thesis using assms by (simp add: redo_def)
next
  case False
  then have l: "last (redo_stack c) \<in> set (redo_stack c)" by simp
  with assms obtain t where t: "riff_text (last (redo_stack c)) = Some t"
    by (auto simp: snapshots_ok_def)
  have "snapshots_ok (c\<lparr>redo_stack := butlast (redo_stack c),
                         history := history c @ [last (redo_stack c)],
                         riff := last (redo_stack c), entry := t,
                         strum_var := riff_strum (last (redo_stack c))\<rparr>)"
    using assms l by (auto simp: snapshots_ok_def dest: in_set_butlastD)
  then show ?thesis using redo_step [OF False t] by simp
qed

lemma three_snapshots:
  fixes c :: card
  shows "(let S0 = r0\<lparr>riff_text := Some t0, riff_strum := b0\<rparr>;
        S1 = r1\<lparr>riff_text := Some t1, riff_strum := b1\<rparr>;
        S2 = r2\<lparr>riff_text := Some t2, riff_strum := b2\<rparr>;
        c1 = save_state (c\<lparr>history := [], redo_stack := [], riff := r0, entry := t0, strum_var := b0\<rparr>);
        c2 = save_state (c1\<lparr>riff := r1, entry := t1, strum_var := b1\<rparr>);
        c3 = save_state (c2\<lparr>riff := r2, entry := t2, strum_var := b2\<rparr>);
        at_S1 = c\<lparr>history := [S0, S1], redo_stack := [S2], riff := S1, entry := t1, strum_var := b1\<rparr>;
        at_S0 = c\<lparr>history := [S0], redo_stack := [S2, S1], riff := S0, entry := t0, strum_var := b0\<rparr>
    in history c3 = [S0, S1, S2]
       \<and> undo (c3\<lparr>riff := r3, entry := t3, strum_var := b3\<rparr>) = Inr at_S1
       \<and> undo at_S1 = Inr at_S0
       \<and> undo at_S0 = Inr at_S0
       \<and> redo at_S0 = Inr at_S1
       \<and> redo_stack (save_state at_S1) = [])"
  by (simp add: Let_def save_state_def undo_def redo_def dict_update_def)

text \<open>
  C4. \<open>undo\<close> changes nothing when the undo stack has at most one entry; otherwise it
  moves the top of the undo stack onto the redo stack and makes the new top the current
  state (phrase, entry text and strum box). \<open>redo\<close> changes nothing when the redo stack
  is empty; otherwise it moves the top of the redo stack back onto the undo stack and
  makes it the current state. \<open>save_state\<close> pushes the current state and clears the redo
  stack. On stacks filled by \<open>save_state\<close> neither \<open>undo\<close> nor \<open>redo\<close> raises. After
  the snapshots S0, S1, S2 (of any three states, with any edit in progress after S2),
  undo restores S1, a second undo restores S0, a third undo changes nothing, and redo
  then restores S1; a snapshot taken after an undo clears the redo stack.
\<close>

theorem edit_history:
  fixes c :: card
  shows
  "(length (history c) \<le> 1 \<longrightarrow> undo c = Inr c)
   \<and> (1 < length (history c) \<and> riff_text (last (butlast (history c))) = Some t \<longrightarrow>
        undo c = Inr (c\<lparr>redo_stack := redo_stack c @ [last (history c)],
                        history := butlast (history c),
                        riff := last (butlast (history c)), entry := t,
                        strum_var := riff_strum (last (butlast (history c)))\<rparr>))
   \<and> (redo_stack c = [] \<longrightarrow> redo c = Inr c)
   \<and> (redo_stack c \<noteq> [] \<and> riff_text (last (redo_stack c)) = Some t' \<longrightarrow>
        redo c = Inr (c\<lparr>redo_stack := butlast (redo_stack c),
                        history := history c @ [last (redo_stack c)],
                        riff := last (redo_stack c), entry := t',
                        strum_var := riff_strum (last (redo_stack c))\<rparr>))
   \<and> redo_stack (save_state c) = []
   \<and> history (save_state c)
       = history c @ [(riff c)\<lparr>riff_text := Some (entry c), riff_strum := strum_var c\<rparr>]
   \<and> (snapshots_ok c \<longrightarrow>
        snapshots_ok (save_state c)
        \<and> (\<exists>c'. undo c = Inr c' \<and> snapshots_ok c')
        \<and> (\<exists>c'. redo c = Inr c' \<and> snapshots_ok c'))
   \<and> (let S0 = r0\<lparr>riff_text := Some t0, riff_strum := b0\<rparr>;
           S1 = r1\<lparr>riff_text := Some t1, riff_strum := b1\<rparr>;
           S2 = r2\<lparr>riff_text := Some t2, riff_strum := b2\<rparr>;
           c1 = save_state (c\<lparr>history := [], redo_stack := [], riff := r0, entry := t0,
                              strum_var := b0\<rparr>);
           c2 = save_state (c1\<lparr>riff := r1, entry := t1, strum_var := b1\<rparr>);
           c3 = save_state (c2\<lparr>riff := r2, entry := t2, strum_var := b2\<rparr>);
           at_S1 = c\<lparr>history := [S0, S1], redo_stack := [S2], riff := S1, entry := t1,
                      strum_var := b1\<rparr>;
           at_S0 = c\<lparr>history := [S0], redo_stack := [S2, S1], riff := S0, entry := t0,
                      strum_var := b0\<rparr>
       in history c3 = [S0, S1, S2]
          \<and> undo (c3\<lparr>riff := r3, entry := t3, strum_var := b3\<rparr>) = Inr at_S1
          \<and> undo at_S1 = Inr at_S0
          \<and> undo at_S0 = Inr at_S0
          \<and> redo at_S0 = Inr at_S1
          \<and> redo_stack (save_state at_S1) = [])"
proof (intro conjI impI)
  show "length (history c) \<le> 1 \<Longrightarrow> undo c = Inr c" by (rule undo_noop)
  show "1 < length (history c) \<and> riff_text (last (butlast (history c))) = Some t \<Longrightarrow>
        undo c = Inr (c\<lparr>redo_stack := redo_stack c @ [last (history c)],
                        history := butlast (history c),
                        riff := last (butlast (history c)), entry := t,
                        strum_var := riff_strum (last (butlast (history c)))\<rparr>)"
    using undo_step by blast
  show "redo_stack c = [] \<Longrightarrow> redo c = Inr c" by (rule redo_noop)
  show "redo_stack c \<noteq> [] \<and> riff_text (last (redo_stack c)) = Some t' \<Longrightarrow>
        redo c = Inr (c\<lparr>redo_stack := butlast (redo_stack c),
                        history := history c @ [last (redo_stack c)],
                        riff := last (redo_stack c), entry := t',
                        strum_var := riff_strum (last (redo_stack c))\<rparr>)"
    using redo_step by blast
  show "redo_stack (save_state c) = []" by (simp add: save_state_def Let_def)
  show "history (save_state c)
       = history c @ [(riff c)\<lparr>riff_text := Some (entry c), riff_strum := strum_var c\<rparr>]"
    by (simp add: save_state_def Let_def)
  show "snapshots_ok c \<Longrightarrow> snapshots_ok (save_state c)" by (rule save_state_ok)
  show "snapshots_ok c \<Longrightarrow> \<exists>c'. undo c = Inr c' \<and> snapshots_ok c'" by (rule undo_ok)
  show "snapshots_ok c \<Longrightarrow> \<exists>c'. redo c = Inr c' \<and> snapshots_ok c'" by (rule redo_ok)
  show "(let S0 = r0\<lparr>riff_text := Some t0, riff_strum := b0\<rparr>;
           S1 = r1\<lparr>riff_text := Some t1, riff_strum := b1\<rparr>;
           S2 = r2\<lparr>riff_text := Some t2, riff_strum := b2\<rparr>;
           c1 = save_state (c\<lparr>history := [], redo_stack := [], riff := r0, entry := t0,
                              strum_var := b0\<rparr>);
           c2 = save_state (c1\<lparr>riff := r1, entry := t1, strum_var := b1\<rparr>);
           c3 = save_state (c2\<lparr>riff := r2, entry := t2, strum_var := b2\<rparr>);
           at_S1 = c\<lparr>history := [S0, S1], redo_stack := [S2], riff := S1, entry := t1,
                      strum_var := b1\<rparr>;
           at_S0 = c\<lparr>history := [S0], redo_stack := [S2, S1], riff := S0, entry := t0,
                      strum_var := b0\<rparr>
       in history c3 = [S0, S1, S2]
          \<and> undo (c3\<lparr>riff := r3, entry := t3, strum_var := b3\<rparr>) = Inr at_S1
          \<and> undo at_S1 = Inr at_S0
          \<and> undo at_S0 = Inr at_S0
          \<and> redo at_S0 = Inr at_S1
          \<and> redo_stack (save_state at_S1) = [])"
    by (rule three_snapshots)
qed

theorem edit_history_witness:
  "(let a = (RiffCard 0 0)\<lparr>history := [new_riff\<lparr>riff_text := Some ''C''\<rparr>,
                                         new_riff\<lparr>riff_notes := [''C''], riff_text := Some ''D''\<rparr>],
                             redo_stack := [new_riff\<lparr>riff_notes := [''D''], riff_text := Some ''E''\<rparr>],
                             entry := ''F''\<rparr>
    in 1 < length (history a) \<and> riff_text (last (butlast (history a))) = Some ''C''
       \<and> redo_stack a \<noteq> [] \<and> riff_text (last (redo_stack a)) = Some ''E''
       \<and> snapshots_ok a
       \<and> undo a = Inr (a\<lparr>redo_stack := redo_stack a @ [last (history a)],
                          history := [new_riff\<lparr>riff_text := Some ''C''\<rparr>],
                          riff := new_riff\<lparr>riff_text := Some ''C''\<rparr>, entry := ''C'',
                          strum_var := False\<rparr>)
       \<and> redo a = Inr (a\<lparr>redo_stack := [],
                          history := history a @ [new_riff\<lparr>riff_notes := [''D''], riff_text := Some ''E''\<rparr>],
                          riff := new_riff\<lparr>riff_notes := [''D''], riff_text := Some ''E''\<rparr>,
                          entry := ''E'', strum_var := False\<rparr>)
       \<and> (\<exists>c'. undo a = Inr c' \<and> snapshots_ok c'))
   \<and> length (history (RiffCard 0 0)) \<le> 1 \<and> redo_stack (RiffCard 0 0) = []
   \<and> undo (RiffCard 0 0) = Inr (RiffCard 0 0) \<and> redo (RiffCard 0 0) = Inr (RiffCard 0 0)"
  using
    edit_history [of "(RiffCard 0 0)\<lparr>history := [new_riff\<lparr>riff_text := Some ''C''\<rparr>,
                                         new_riff\<lparr>riff_notes := [''C''], riff_text := Some ''D''\<rparr>],
                             redo_stack := [new_riff\<lparr>riff_notes := [''D''], riff_text := Some ''E''\<rparr>],
                             entry := ''F''\<rparr>" "''C''" "''E''"]
    edit_history [of "RiffCard 0 0"]
  by (simp add: RiffCard_def new_riff_def snapshots_ok_def Let_def)

section \<open>Committing a phrase\<close>

text \<open>
  The checks of \<open>_save_or_update_riff\<close>: an element whose first letter is outside
  A..G is named in the error shown, a list of tokens with such an element is never
  committed, and a commit that is not made leaves the state as it was.
\<close>

lemma check_sub_unknown_letter:
  "py_upper_char ch \<notin> set ''ABCDEFG'' \<Longrightarrow>
     check_sub (ch # rest)
       = ShowError (''Invalid note letter: '' @ [py_upper_char ch] @ '' in '' @ ch # rest)"
  by (simp add: check_sub_def)

lemma check_subs_unknown_letter:
  "ch # rest \<in> set subs \<Longrightarrow> py_upper_char ch \<notin> set ''ABCDEFG'' \<Longrightarrow> check_subs subs \<noteq> Committed"
proof (induction subs)
  case Nil
  then show ?case by simp
next
  case (Cons s subs)
  show ?case
  proof (cases "check_sub s")
    case Committed
    with Cons.prems check_sub_unknown_letter [of ch rest] have "ch # rest \<in> set subs" by auto
    with Cons Committed show ?thesis by simp
  qed simp_all
qed

lemma check_notes_unknown_letter:
  assumes "ng \<in> set ngs" and "py_upper ng \<noteq> ''R''"
    and "ch # rest \<in> set (py_split CHR ''+'' ng)" and "py_upper_char ch \<notin> set ''ABCDEFG''"
  shows "check_notes ngs \<noteq> Committed"
  using assms(1)
proof (induction ngs)
  case Nil
  then show ?case by simp
next
  case (Cons n ngs)
  show ?case
  proof (cases "n = ng")
    case True
    with assms(2) check_subs_unknown_letter [OF assms(3,4)] show ?thesis
      by (auto split: outcome.splits)
  next
    case False
    with Cons show ?thesis by (auto split: outcome.splits)
  qed
qed

lemma commit_rejected_unchanged:
  "fst (save_or_update_riff add_new w) \<noteq> Committed \<Longrightarrow> snd (save_or_update_riff add_new w) = w"
  by (auto simp: save_or_update_riff_def Let_def split: outcome.splits if_splits)

text \<open>\<open>save_riff\<close> adds no key to the phrase, and the slot it writes holds the phrase.\<close>

lemma save_riff_keeps_schema:
  assumes "riff_text (riff c) = None"
  shows "riff_text (riff (fst (save_riff c sd))) = None"
  using assms by (simp add: save_riff_def save_state_def Let_def)

lemma save_riff_slot:
  assumes "py_strip (entry c) \<noteq> []" and "track c < length sd" and "idx c < length (sd ! track c)"
  shows "fst (snd (save_riff c sd)) ! track c ! idx c = riff (fst (save_riff c sd))"
  using assms by (simp add: save_riff_def save_state_def Let_def)

text \<open>
  C10. After \<open>save_riff\<close> on an entry text that is not empty once stripped, the phrase's
  duration code is \<open>4s\<close>, whatever it was before; its notes are the words of the text.
\<close>

theorem save_riff_sets_quarter:
  assumes "py_strip (entry c) \<noteq> []"
  shows "riff_duration (riff (fst (save_riff c song_data))) = ''4s''
       \<and> riff_notes (riff (fst (save_riff c song_data))) = py_split_ws (py_strip (entry c))"
  using assms by (simp add: save_riff_def save_state_def Let_def)

theorem save_riff_sets_quarter_witness:
  "py_strip '' C E  '' \<noteq> []
   \<and> riff_duration (riff (fst (save_riff
        ((RiffCard 0 0)\<lparr>riff := new_riff\<lparr>riff_duration := ''8s''\<rparr>, entry := '' C E  ''\<rparr>)
        initial_song_data))) = ''4s''"
  using save_riff_sets_quarter
    [of "(RiffCard 0 0)\<lparr>riff := new_riff\<lparr>riff_duration := ''8s''\<rparr>, entry := '' C E  ''\<rparr>"
        initial_song_data]
  by (simp add: RiffCard_def py_strip_def py_isspace_def)

text \<open>
  C5, at the entry text \<open>X\<close>, a letter that is no note, rest or drum. \<open>save_riff\<close> of
  grokmidi.py stores the token in the phrase and in \<open>song_data\<close> and reports nothing;
  drawing the card then raises nothing on a drum track and KeyError on a pitched one,
  and the export of the phrase raises KeyError. \<open>_save_or_update_riff\<close> of midigimp.py,
  on the same text, shows the error that names the element and leaves its state as it was.
\<close>

theorem unknown_letter_is_stored:
  "(case save_riff ((RiffCard 0 0)\<lparr>entry := ''X''\<rparr>) initial_song_data of (c1, sd1, x1) \<Rightarrow>
      x1 = None \<and> riff_notes (riff c1) = [''X''] \<and> riff_notes (sd1 ! 0 ! 0) = [''X'']
      \<and> draw_staff True (riff c1) = None
      \<and> draw_staff False (riff c1) = Some KeyError
      \<and> export_track 0 0 48 [riff c1] [] = Inl KeyError)
   \<and> save_or_update_riff True (w\<lparr>notes_entry := ''X''\<rparr>)
       = (ShowError ''Invalid note letter: X in X'', w\<lparr>notes_entry := ''X''\<rparr>)"
  by (simp add: save_riff_def save_state_def RiffCard_def initial_song_data_def new_riff_def
      py_strip_def py_split_ws_def py_isspace_def Let_def draw_staff_def staff_pos_def
      str_defs table_defs export_track_def export_riff_def export_token_def midi_from_str_def
      save_or_update_riff_def check_sub_def)

section \<open>The save file\<close>

text \<open>
  C7, at this run on the first card of the first track: commit the text \<open>C\<close>, commit the
  text \<open>D\<close>, undo, commit again, save the song. \<open>undo\<close> writes the snapshot, with its
  key \<open>'text'\<close>, into the phrase; the next commit copies the phrase into \<open>song_data\<close>;
  the record in the save file has five fields, the fifth the entry text of the snapshot.
\<close>

theorem save_file_holds_snapshot_text:
  "(case save_riff ((RiffCard 0 0)\<lparr>entry := ''C''\<rparr>) initial_song_data of (c1, sd1, x1) \<Rightarrow>
     (case save_riff (c1\<lparr>entry := ''D''\<rparr>) sd1 of (c2, sd2, x2) \<Rightarrow>
       (case undo c2 of
          Inl e \<Rightarrow> False
        | Inr c3 \<Rightarrow>
           (case save_riff c3 sd2 of (c4, sd3, x3) \<Rightarrow>
              x1 = None \<and> x2 = None \<and> x3 = None
              \<and> snd (save_song 120 sd3) ! 0 ! 0 =
                  [(''notes'', JList [''C'']), (''duration'', JStr ''4s''), (''c_scale'', JInt 60),
                   (''strum'', JBool False), (''text'', JStr ''C'')]))))"
  by (simp add: save_riff_def save_state_def undo_def RiffCard_def initial_song_data_def
      new_riff_def dict_update_def save_song_def riff_items_def py_strip_def py_split_ws_def
      py_isspace_def Let_def)

section \<open>Timeline\<close>

text \<open>A token that is valid resolves; the cursor moves by the duration at every token.\<close>

lemma resolvable_resolves: "resolvable s \<Longrightarrow> \<exists>p. midi_from_str s c = Inr p"
  by (auto simp: resolvable_def midi_from_str_def Let_def split: list.splits option.splits)

lemma resolves_resolvable: "midi_from_str s c = Inr p \<Longrightarrow> resolvable s"
  by (auto simp: resolvable_def midi_from_str_def Let_def split: list.splits option.splits if_splits)

lemma resolve_subs_ok: "list_all resolvable ss \<Longrightarrow> \<exists>ps. resolve_subs ss c = Inr ps"
proof (induction ss)
  case Nil
  then show ?case by simp
next
  case (Cons s ss)
  then obtain p ps where "midi_from_str s c = Inr p" "resolve_subs ss c = Inr ps"
    using resolvable_resolves [of s c] by auto
  then show ?case by simp
qed

lemma export_token_cursor:
  "export_token t_idx prog c dur delay ng (evs, t) = Inr (evs', t') \<Longrightarrow> t' = t + dur"
  by (auto simp: export_token_def Let_def split: if_splits sum.splits)

lemma export_token_ok:
  "valid_token ng \<Longrightarrow> \<exists>evs'. export_token t_idx prog c dur delay ng (evs, t) = Inr (evs', t + dur)"
  using resolve_subs_ok [of "py_split CHR ''+'' ng" c]
  by (auto simp: export_token_def valid_token_def Let_def)

lemma export_notes_cursor:
  "export_notes t_idx prog c dur delay ngs (evs, t) = Inr (evs', t') \<Longrightarrow>
     t' = t + (\<Sum>ng\<leftarrow>ngs. dur)"
proof (induction ngs arbitrary: evs t)
  case Nil
  then show ?case by simp
next
  case (Cons ng ngs)
  from Cons.prems obtain evs1 t1 where
    1: "export_token t_idx prog c dur delay ng (evs, t) = Inr (evs1, t1)" and
    2: "export_notes t_idx prog c dur delay ngs (evs1, t1) = Inr (evs', t')"
    by (auto split: sum.splits)
  from export_token_cursor [OF 1] Cons.IH [OF 2] show ?case by simp
qed

lemma export_notes_ok:
  "list_all valid_token ngs \<Longrightarrow>
     \<exists>evs'. export_notes t_idx prog c dur delay ngs (evs, t) = Inr (evs', t + (\<Sum>ng\<leftarrow>ngs. dur))"
proof (induction ngs arbitrary: evs t)
  case Nil
  then show ?case by simp
next
  case (Cons ng ngs)
  from Cons.prems have v: "valid_token ng" and vs: "list_all valid_token ngs" by simp_all
  from export_token_ok [OF v] obtain evs1 where
    1: "export_token t_idx prog c dur delay ng (evs, t) = Inr (evs1, t + dur)" by blast
  from Cons.IH [OF vs] obtain evs2 where
    "export_notes t_idx prog c dur delay ngs (evs1, t + dur) = Inr (evs2, t + dur + (\<Sum>ng\<leftarrow>ngs. dur))"
    by blast
  with 1 show ?case by (simp add: add.assoc)
qed

lemma export_riff_cursor:
  "export_riff t_idx prog c r (evs, t) = Inr (evs', t') \<Longrightarrow>
     t' = t + (\<Sum>ng\<leftarrow>riff_notes r. get_duration (riff_duration r))"
  by (auto simp: export_riff_def Let_def dest: export_notes_cursor split: if_splits)

lemma export_riff_ok:
  "valid_riff r \<Longrightarrow>
     \<exists>evs'. export_riff t_idx prog c r (evs, t)
             = Inr (evs', t + (\<Sum>ng\<leftarrow>riff_notes r. get_duration (riff_duration r)))"
  using export_notes_ok [of "riff_notes r" t_idx prog c "get_duration (riff_duration r)" _ evs t]
  by (auto simp: export_riff_def valid_riff_def Let_def)

lemma export_cards_cursor:
  "export_cards t_idx prog c rs (evs, t) = Inr (evs', t') \<Longrightarrow> t' = t + total_beats rs"
proof (induction rs arbitrary: evs t)
  case Nil
  then show ?case by (simp add: total_beats_def)
next
  case (Cons r rs)
  from Cons.prems obtain evs1 t1 where
    1: "export_riff t_idx prog c r (evs, t) = Inr (evs1, t1)" and
    2: "export_cards t_idx prog c rs (evs1, t1) = Inr (evs', t')"
    by (auto split: sum.splits)
  from export_riff_cursor [OF 1] Cons.IH [OF 2] show ?case by (simp add: total_beats_def)
qed

lemma export_cards_ok:
  "list_all valid_riff rs \<Longrightarrow>
     \<exists>evs'. export_cards t_idx prog c rs (evs, t) = Inr (evs', t + total_beats rs)"
proof (induction rs arbitrary: evs t)
  case Nil
  then show ?case by (simp add: total_beats_def)
next
  case (Cons r rs)
  from Cons.prems have v: "valid_riff r" and vs: "list_all valid_riff rs" by simp_all
  from export_riff_ok [OF v] obtain evs1 where
    1: "export_riff t_idx prog c r (evs, t)
          = Inr (evs1, t + (\<Sum>ng\<leftarrow>riff_notes r. get_duration (riff_duration r)))"
    by blast
  from Cons.IH [OF vs] obtain evs2 where
    "export_cards t_idx prog c rs (evs1, t + (\<Sum>ng\<leftarrow>riff_notes r. get_duration (riff_duration r)))
       = Inr (evs2, t + (\<Sum>ng\<leftarrow>riff_notes r. get_duration (riff_duration r)) + total_beats rs)"
    by blast
  with 1 show ?case by (simp add: total_beats_def add.assoc)
qed

lemma check_sub_resolves:
  assumes "check_sub s = Committed"
  shows "\<exists>p. get_midi_note s octave = Inr (Some p)"
proof (cases s)
  case Nil
  with assms show ?thesis by (simp add: check_sub_def)
next
  case (Cons ch rest)
  with assms have L: "py_upper_char ch \<in> set ''ABCDEFG''"
    by (auto simp: check_sub_def Let_def split: if_splits)
  then have nr: "py_upper s \<noteq> ''R''"
    using Cons by (auto simp: py_upper_def)
  from L obtain b where b: "note_map [py_upper_char ch] = Some b"
    by (auto simp: note_map_def)
  from assms Cons have m: "py_lower rest = [] \<or> py_lower rest \<in> set [''#'', ''b'', ''%'']"
    by (auto simp: check_sub_def Let_def py_lower_def split: if_splits list.splits)
  from L nr b m Cons show ?thesis
    by (auto simp: get_midi_note_def Let_def)
qed

lemma check_subs_resolve:
  "check_subs ss = Committed \<Longrightarrow> \<exists>ps. mg_resolve_subs ss octave = Inr ps"
proof (induction ss)
  case Nil
  then show ?case by simp
next
  case (Cons s ss)
  from Cons.prems have 1: "check_sub s = Committed" and 2: "check_subs ss = Committed"
    by (auto split: outcome.splits)
  from check_sub_resolves [OF 1] obtain p where "get_midi_note s octave = Inr (Some p)" by blast
  moreover from Cons.IH [OF 2] obtain ps where "mg_resolve_subs ss octave = Inr ps" by blast
  ultimately show ?case by simp
qed

lemma mg_export_notes_cursor:
  "mg_export_notes dur octave ngs (evs, t) = Inr (evs', t') \<Longrightarrow> t' = t + (\<Sum>ng\<leftarrow>ngs. dur)"
proof (induction ngs arbitrary: evs t)
  case Nil
  then show ?case by simp
next
  case (Cons ng ngs)
  show ?case
  proof (cases "py_upper ng = ''R''")
    case True
    with Cons.prems have "mg_export_notes dur octave ngs (evs, t + dur) = Inr (evs', t')" by simp
    from Cons.IH [OF this] show ?thesis by simp
  next
    case False
    with Cons.prems obtain ps where
      "mg_export_notes dur octave ngs
         (evs @ map (\<lambda>pitch. \<lparr>mg_pitch = pitch, mg_time = t, mg_length = dur\<rparr>) ps, t + dur)
       = Inr (evs', t')"
      by (auto split: sum.splits)
    from Cons.IH [OF this] show ?thesis by simp
  qed
qed

lemma mg_export_notes_ok:
  "check_notes ngs = Committed \<Longrightarrow>
     \<exists>evs'. mg_export_notes dur octave ngs (evs, t) = Inr (evs', t + (\<Sum>ng\<leftarrow>ngs. dur))"
proof (induction ngs arbitrary: evs t)
  case Nil
  then show ?case by simp
next
  case (Cons ng ngs)
  show ?case
  proof (cases "py_upper ng = ''R''")
    case True
    with Cons.prems have "check_notes ngs = Committed" by simp
    from Cons.IH [OF this, of evs "t + dur"] True show ?thesis by (simp add: add.assoc)
  next
    case False
    with Cons.prems have 1: "check_subs (py_split CHR ''+'' ng) = Committed"
      and 2: "check_notes ngs = Committed"
      by (auto split: outcome.splits)
    from check_subs_resolve [OF 1] obtain ps where
      ps: "mg_resolve_subs (py_split CHR ''+'' ng) octave = Inr ps" by blast
    from Cons.IH [OF 2, of "evs @ map (\<lambda>pitch. \<lparr>mg_pitch = pitch, mg_time = t, mg_length = dur\<rparr>) ps" "t + dur"]
      False ps show ?thesis by (simp add: add.assoc)
  qed
qed

lemma mg_export_riffs_cursor:
  "mg_export_riffs rs (evs, t) = Inr (evs', t') \<Longrightarrow> t' = t + mg_total_beats rs"
proof (induction rs arbitrary: evs t)
  case Nil
  then show ?case by (simp add: mg_total_beats_def)
next
  case (Cons r rs)
  from Cons.prems obtain evs1 t1 where
    1: "mg_export_notes (get_duration (mg_duration r)) (mg_octave r) (mg_notes r) (evs, t) = Inr (evs1, t1)"
    and 2: "mg_export_riffs rs (evs1, t1) = Inr (evs', t')"
    by (auto split: sum.splits)
  from mg_export_notes_cursor [OF 1] Cons.IH [OF 2] show ?case by (simp add: mg_total_beats_def)
qed

lemma mg_export_riffs_ok:
  "list_all (\<lambda>r. check_notes (mg_notes r) = Committed) rs \<Longrightarrow>
     \<exists>evs'. mg_export_riffs rs (evs, t) = Inr (evs', t + mg_total_beats rs)"
proof (induction rs arbitrary: evs t)
  case Nil
  then show ?case by (simp add: mg_total_beats_def)
next
  case (Cons r rs)
  from Cons.prems have v: "check_notes (mg_notes r) = Committed"
    and vs: "list_all (\<lambda>r. check_notes (mg_notes r) = Committed) rs" by simp_all
  from mg_export_notes_ok [OF v] obtain evs1 where
    1: "mg_export_notes (get_duration (mg_duration r)) (mg_octave r) (mg_notes r) (evs, t)
          = Inr (evs1, t + (\<Sum>ng\<leftarrow>mg_notes r. get_duration (mg_duration r)))"
    by blast
  from Cons.IH [OF vs] obtain evs2 where
    "mg_export_riffs rs (evs1, t + (\<Sum>ng\<leftarrow>mg_notes r. get_duration (mg_duration r)))
       = Inr (evs2, t + (\<Sum>ng\<leftarrow>mg_notes r. get_duration (mg_duration r)) + mg_total_beats rs)"
    by blast
  with 1 show ?case by (simp add: mg_total_beats_def add.assoc)
qed

lemma total_beats_tokens:
  "total_beats rs = (\<Sum>r\<leftarrow>rs. of_nat (length (riff_notes r)) * get_duration (riff_duration r))"
  by (simp add: total_beats_def sum_list_triv)

text \<open>The events one token adds.\<close>

lemma add_notes_eq:
  "add_notes t_idx prog cur delay dur j ps evs =
     evs @ concat (map (\<lambda>(k, p). case p of
                           None \<Rightarrow> []
                         | Some v \<Rightarrow> [\<lparr>ev_track = t_idx, ev_channel = (if prog = 35 then 9 else 0),
                                       ev_pitch = v, ev_time = cur + delay * of_nat k,
                                       ev_duration = dur, ev_volume = 100\<rparr>])
                   (zip [j..<j + length ps] ps))"
proof (induction ps arbitrary: j evs)
  case Nil
  then show ?case by simp
next
  case (Cons p ps)
  have u: "[j..<j + length (p # ps)] = j # [Suc j..<Suc j + length ps]"
    by (simp add: upt_rec)
  show ?case
    unfolding u by (cases p) (simp_all add: Cons.IH Let_def)
qed


lemma get_duration_min: "1 / 8 \<le> get_duration d"
  by (simp add: get_duration_def duration_table_def)

lemma rest_is_one_element: "py_upper ng = ''R'' \<Longrightarrow> py_split CHR ''+'' ng = [ng]"
  by (cases ng) (auto simp: py_upper_def py_upper_char_def)

lemma export_token_events:
  assumes "py_upper ng \<noteq> ''R''" and "resolve_subs (py_split CHR ''+'' ng) c = Inr ps"
  shows "export_token t_idx prog c dur delay ng (evs, cur) =
           Inr (evs @ concat (map (\<lambda>(j, p). case p of
                                   None \<Rightarrow> []
                                 | Some v \<Rightarrow> [\<lparr>ev_track = t_idx,
                                               ev_channel = (if prog = 35 then 9 else 0),
                                               ev_pitch = v, ev_time = cur + delay * of_nat j,
                                               ev_duration = dur, ev_volume = 100\<rparr>])
                              (zip [0..<length ps] ps)),
                cur + dur)"
  using assms add_notes_eq [of t_idx prog cur delay dur 0 ps evs]
  by (simp add: export_token_def Let_def)

text \<open>
  C3. For every list of phrases on a track whose tokens all resolve, the assembly
  returns, and the track's ending beat cursor is the sum of the phrase's beat length
  over every token of every phrase, in order: the duration times the number of tokens,
  a rest counting as a sounding token does and a chord once. Whenever the assembly
  returns at all, the cursor is that sum. The same holds of midigimp.py's single
  track, where a riff that passed the commit's checks always resolves.
\<close>

theorem track_end_cursor:
  "(list_all valid_riff rs \<longrightarrow>
      (\<exists>evs'. export_track t_idx prog c rs evs = Inr (evs', total_beats rs)))
   \<and> (export_track t_idx prog c rs evs = Inr (evs1, t1) \<longrightarrow> t1 = total_beats rs)
   \<and> total_beats rs = (\<Sum>r\<leftarrow>rs. of_nat (length (riff_notes r)) * get_duration (riff_duration r))
   \<and> (list_all (\<lambda>r. check_notes (mg_notes r) = Committed) mrs \<longrightarrow>
      (\<exists>evs'. mg_export_midi mrs = Inr (evs', mg_total_beats mrs)))
   \<and> (mg_export_midi mrs = Inr (evs2, t2) \<longrightarrow> t2 = mg_total_beats mrs)"
  using export_cards_ok [of rs t_idx prog c evs 0]
    export_cards_cursor [of t_idx prog c rs evs 0 evs1 t1]
    mg_export_riffs_ok [of mrs "[]" 0] mg_export_riffs_cursor [of mrs "[]" 0 evs2 t2]
    total_beats_tokens [of rs]
  by (simp add: export_track_def mg_export_midi_def)

theorem track_end_cursor_witness:
  "list_all valid_riff
     [new_riff\<lparr>riff_notes := [''C'', ''R'', ''E+G'']\<rparr>,
      new_riff\<lparr>riff_notes := [''K'', ''r''], riff_duration := ''8s''\<rparr>]
   \<and> (\<exists>evs'. export_track 0 0 48
                [new_riff\<lparr>riff_notes := [''C'', ''R'', ''E+G'']\<rparr>,
                 new_riff\<lparr>riff_notes := [''K'', ''r''], riff_duration := ''8s''\<rparr>] []
              = Inr (evs', 4))
   \<and> list_all (\<lambda>r. check_notes (mg_notes r) = Committed)
        [\<lparr>mg_notes = [''C'', ''R'', ''E+G''], mg_duration = ''4s'', mg_octave = 4,
          mg_instrument = 0\<rparr>]
   \<and> (\<exists>evs'. mg_export_midi
                [\<lparr>mg_notes = [''C'', ''R'', ''E+G''], mg_duration = ''4s'', mg_octave = 4,
                  mg_instrument = 0\<rparr>]
              = Inr (evs', 3))"
  using track_end_cursor
    [of "[new_riff\<lparr>riff_notes := [''C'', ''R'', ''E+G'']\<rparr>,
          new_riff\<lparr>riff_notes := [''K'', ''r''], riff_duration := ''8s''\<rparr>]"
        0 0 48 "[]" "[]" 0
        "[\<lparr>mg_notes = [''C'', ''R'', ''E+G''], mg_duration = ''4s'', mg_octave = 4,
           mg_instrument = 0\<rparr>]"
        "[]" 0]
  by (simp add: valid_riff_def valid_token_def resolvable_def new_riff_def str_defs table_defs
       check_sub_def get_duration_def duration_table_def total_beats_def mg_total_beats_def)

text \<open>
  C6. In a phrase whose strum flag is set the assembly runs with the delay 0.03, and a
  token that is no rest emits, for the \<open>j\<close>-th subnote (from 0, in written order) that
  has a pitch, one event that starts at the token's cursor position plus the delay
  times \<open>j\<close> and has the length of the phrase's duration. So the three subnotes of a
  strummed chord start at the cursor, 0.03 and 0.06 beats later, each as long as the
  duration: the second and third start strictly after the first and strictly before
  the first's start plus the duration, for every duration code.
\<close>

theorem strum_stagger:
  "(riff_strum r \<and> riff_notes r \<noteq> [] \<longrightarrow>
      play_riff t_idx prog c r st
        = export_notes t_idx prog c (get_duration (riff_duration r)) (3 / 100) (riff_notes r) st)
   \<and> (py_upper ng \<noteq> ''R'' \<and> resolve_subs (py_split CHR ''+'' ng) c = Inr ps \<longrightarrow>
        play_token t_idx prog c dur delay ng (evs, cur) =
           Inr (evs @ concat (map (\<lambda>(j, p). case p of
                                   None \<Rightarrow> []
                                 | Some v \<Rightarrow> [\<lparr>ev_track = t_idx,
                                               ev_channel = (if prog = 35 then 9 else 0),
                                               ev_pitch = v, ev_time = cur + delay * of_nat j,
                                               ev_duration = dur, ev_volume = 100\<rparr>])
                              (zip [0..<length ps] ps)),
                cur + dur))
   \<and> (riff_strum r \<and> riff_notes r = [ng] \<and> py_split CHR ''+'' ng = [s0, s1, s2]
       \<and> midi_from_str s0 c = Inr (Some p0) \<and> midi_from_str s1 c = Inr (Some p1)
       \<and> midi_from_str s2 c = Inr (Some p2) \<longrightarrow>
        (\<exists>e0 e1 e2.
            play_riff t_idx prog c r (evs, cur)
              = Inr (evs @ [e0, e1, e2], cur + get_duration (riff_duration r))
            \<and> ev_pitch e0 = p0 \<and> ev_pitch e1 = p1 \<and> ev_pitch e2 = p2
            \<and> ev_time e0 = cur \<and> ev_time e1 = cur + 3 / 100 \<and> ev_time e2 = cur + 3 / 100 * 2
            \<and> ev_duration e0 = get_duration (riff_duration r)
            \<and> ev_duration e1 = get_duration (riff_duration r)
            \<and> ev_duration e2 = get_duration (riff_duration r)
            \<and> ev_time e0 < ev_time e1 \<and> ev_time e0 < ev_time e2
            \<and> ev_time e1 < ev_time e0 + get_duration (riff_duration r)
            \<and> ev_time e2 < ev_time e0 + get_duration (riff_duration r)))"
proof (intro conjI impI)
  show "play_riff t_idx prog c r st
        = export_notes t_idx prog c (get_duration (riff_duration r)) (3 / 100) (riff_notes r) st"
    if "riff_strum r \<and> riff_notes r \<noteq> []"
    using that by (simp add: play_riff_def export_riff_def Let_def)
  show "play_token t_idx prog c dur delay ng (evs, cur) =
           Inr (evs @ concat (map (\<lambda>(j, p). case p of
                                   None \<Rightarrow> []
                                 | Some v \<Rightarrow> [\<lparr>ev_track = t_idx,
                                               ev_channel = (if prog = 35 then 9 else 0),
                                               ev_pitch = v, ev_time = cur + delay * of_nat j,
                                               ev_duration = dur, ev_volume = 100\<rparr>])
                              (zip [0..<length ps] ps)),
                cur + dur)"
    if "py_upper ng \<noteq> ''R'' \<and> resolve_subs (py_split CHR ''+'' ng) c = Inr ps"
    using that export_token_events [of ng c ps] by (simp add: play_token_def)
  show "\<exists>e0 e1 e2.
            play_riff t_idx prog c r (evs, cur)
              = Inr (evs @ [e0, e1, e2], cur + get_duration (riff_duration r))
            \<and> ev_pitch e0 = p0 \<and> ev_pitch e1 = p1 \<and> ev_pitch e2 = p2
            \<and> ev_time e0 = cur \<and> ev_time e1 = cur + 3 / 100 \<and> ev_time e2 = cur + 3 / 100 * 2
            \<and> ev_duration e0 = get_duration (riff_duration r)
            \<and> ev_duration e1 = get_duration (riff_duration r)
            \<and> ev_duration e2 = get_duration (riff_duration r)
            \<and> ev_time e0 < ev_time e1 \<and> ev_time e0 < ev_time e2
            \<and> ev_time e1 < ev_time e0 + get_duration (riff_duration r)
            \<and> ev_time e2 < ev_time e0 + get_duration (riff_duration r)"
    if h: "riff_strum r \<and> riff_notes r = [ng] \<and> py_split CHR ''+'' ng = [s0, s1, s2]
       \<and> midi_from_str s0 c = Inr (Some p0) \<and> midi_from_str s1 c = Inr (Some p1)
       \<and> midi_from_str s2 c = Inr (Some p2)"
  proof -
    from h have nr: "py_upper ng \<noteq> ''R''"
      using rest_is_one_element [of ng] by auto
    from h have rs: "resolve_subs (py_split CHR ''+'' ng) c = Inr [Some p0, Some p1, Some p2]"
      by simp
    have u: "[0..<3] = [0, 1, 2]" by (simp add: upt_rec)
    have d: "1 / 8 \<le> get_duration (riff_duration r)" by (rule get_duration_min)
    from h export_token_events [OF nr rs, of t_idx prog "get_duration (riff_duration r)" "3 / 100" evs cur]
    have "play_riff t_idx prog c r (evs, cur)
          = Inr (evs @ [\<lparr>ev_track = t_idx, ev_channel = (if prog = 35 then 9 else 0),
                          ev_pitch = p0, ev_time = cur, ev_duration = get_duration (riff_duration r),
                          ev_volume = 100\<rparr>,
                        \<lparr>ev_track = t_idx, ev_channel = (if prog = 35 then 9 else 0),
                          ev_pitch = p1, ev_time = cur + 3 / 100,
                          ev_duration = get_duration (riff_duration r), ev_volume = 100\<rparr>,
                        \<lparr>ev_track = t_idx, ev_channel = (if prog = 35 then 9 else 0),
                          ev_pitch = p2, ev_time = cur + 3 / 100 * 2,
                          ev_duration = get_duration (riff_duration r), ev_volume = 100\<rparr>],
                 cur + get_duration (riff_duration r))"
      by (simp add: play_riff_def export_riff_def Let_def u)
    with d show ?thesis by (intro exI conjI) (assumption | simp)+
  qed
qed

theorem strum_stagger_witness:
  "riff_strum (new_riff\<lparr>riff_notes := [''C+E+G''], riff_duration := ''32s'', riff_strum := True\<rparr>)
   \<and> py_split CHR ''+'' ''C+E+G'' = [''C'', ''E'', ''G'']
   \<and> midi_from_str ''C'' 60 = Inr (Some 60) \<and> midi_from_str ''E'' 60 = Inr (Some 64)
   \<and> midi_from_str ''G'' 60 = Inr (Some 67)
   \<and> (\<exists>e0 e1 e2.
         play_riff 0 0 60
           (new_riff\<lparr>riff_notes := [''C+E+G''], riff_duration := ''32s'', riff_strum := True\<rparr>)
           ([], 2) = Inr ([e0, e1, e2], 2 + 1 / 8)
         \<and> ev_pitch e0 = 60 \<and> ev_pitch e1 = 64 \<and> ev_pitch e2 = 67
         \<and> ev_time e0 = 2 \<and> ev_time e1 = 2 + 3 / 100 \<and> ev_time e2 = 2 + 3 / 100 * 2
         \<and> ev_duration e1 = 1 / 8 \<and> ev_time e0 < ev_time e1 \<and> ev_time e2 < ev_time e0 + 1 / 8)"
proof -
  let ?r = "new_riff\<lparr>riff_notes := [''C+E+G''], riff_duration := ''32s'', riff_strum := True\<rparr>"
  have h: "riff_strum ?r \<and> riff_notes ?r = [''C+E+G'']
           \<and> py_split CHR ''+'' ''C+E+G'' = [''C'', ''E'', ''G'']
           \<and> midi_from_str ''C'' 60 = Inr (Some 60) \<and> midi_from_str ''E'' 60 = Inr (Some 64)
           \<and> midi_from_str ''G'' 60 = Inr (Some 67)"
    by (simp add: new_riff_def midi_from_str_def str_defs table_defs)
  have g: "get_duration (riff_duration ?r) = 1 / 8"
    by (simp add: get_duration_def duration_table_def)
  from h strum_stagger
    [where r = ?r and t_idx = 0 and prog = 0 and c = 60 and ng = "''C+E+G''"
       and evs = "[]" and cur = 2 and ?s0.0 = "''C''" and ?s1.0 = "''E''" and ?s2.0 = "''G''"
       and ?p0.0 = 60 and ?p1.0 = 64 and ?p2.0 = 67]
  obtain e0 e1 e2 where
    "play_riff 0 0 60 ?r ([], 2) = Inr ([] @ [e0, e1, e2], 2 + get_duration (riff_duration ?r))"
    "ev_pitch e0 = 60" "ev_pitch e1 = 64" "ev_pitch e2 = 67"
    "ev_time e0 = 2" "ev_time e1 = 2 + 3 / 100" "ev_time e2 = 2 + 3 / 100 * 2"
    "ev_duration e1 = get_duration (riff_duration ?r)"
    "ev_time e0 < ev_time e1" "ev_time e2 < ev_time e0 + get_duration (riff_duration ?r)"
    by blast
  with g have "\<exists>e0 e1 e2.
         play_riff 0 0 60 ?r ([], 2) = Inr ([e0, e1, e2], 2 + 1 / 8)
         \<and> ev_pitch e0 = 60 \<and> ev_pitch e1 = 64 \<and> ev_pitch e2 = 67
         \<and> ev_time e0 = 2 \<and> ev_time e1 = 2 + 3 / 100 \<and> ev_time e2 = 2 + 3 / 100 * 2
         \<and> ev_duration e1 = 1 / 8 \<and> ev_time e0 < ev_time e1 \<and> ev_time e2 < ev_time e0 + 1 / 8"
    by (intro exI [of _ e0] exI [of _ e1] exI [of _ e2]) simp
  with h show ?thesis by blast
qed

end
